theory Spec2Isabelle
  imports Complex_Main "HOL-Library.Word"
begin

section \<open>Compile-time constants of the fused-orientation sketch\<close>

text \<open>
  \<^verbatim>\<open>constexpr float SAMPLE_RATE_HZ = 100.0f;  // Match with loop delay\<close>
  \<^verbatim>\<open>constexpr int LOOP_DELAY_MS = 100;        // Delay per loop in milliseconds\<close>
  Floating-point values are idealised as reals throughout.
\<close>

definition SAMPLE_RATE_HZ :: real where
  "SAMPLE_RATE_HZ = 100"

definition LOOP_DELAY_MS :: int where
  "LOOP_DELAY_MS = 100"

section \<open>Sensor samples and the environment\<close>

text \<open>
  \<^verbatim>\<open>sensors_event_t\<close> is the driver's event struct; the sketches read only the three
  components of \<^verbatim>\<open>accel.acceleration\<close> and of \<^verbatim>\<open>gyro.gyro\<close>.
\<close>

record sensors_vec_t =
  vec_x :: real
  vec_y :: real
  vec_z :: real

type_synonym peer = string

text \<open>
  Everything the sketches observe from the hardware and the radio, at one polling point:
  what each library call would return if it were made now. \<open>read_ok\<close> is the \<^verbatim>\<open>bool\<close>
  that \<^verbatim>\<open>getEvent\<close> returns, \<open>accel_ev\<close> and \<open>gyro_ev\<close> are the contents of the event
  structs after that call, whatever its result.
\<close>

record env =
  serial_up :: bool
  imu_begin_ok :: bool
  ble_begin_ok :: bool
  central :: "peer option"
  connected :: bool
  read_ok :: bool
  accel_ev :: sensors_vec_t
  gyro_ev :: sensors_vec_t
  temp_ev :: real
  millis :: "32 word"

section \<open>Fixed-point rendering of numbers\<close>

text \<open>
  \<^verbatim>\<open>snprintf\<close> with \<^verbatim>\<open>%.2f\<close> and Arduino's \<^verbatim>\<open>String(float, 4)\<close> print a finite value
  as an optional sign, the integer part in decimal, a point and a fixed number of
  fraction digits, rounded to nearest with ties to even. \<open>digit_char\<close> is only applied
  to numbers below ten.
\<close>

definition digit_char :: "nat \<Rightarrow> char" where
  "digit_char n = ''0123456789'' ! n"

fun dec :: "nat \<Rightarrow> string" where
  "dec n = (if n < 10 then [digit_char n] else dec (n div 10) @ [digit_char (n mod 10)])"

declare dec.simps [simp del]

primrec frac_digits :: "nat \<Rightarrow> nat \<Rightarrow> string" where
  "frac_digits 0 m = []"
| "frac_digits (Suc d) m = frac_digits d (m div 10) @ [digit_char (m mod 10)]"

definition round_half_even :: "real \<Rightarrow> int" where
  "round_half_even q =
     (let f = \<lfloor>q\<rfloor>; r = q - of_int f
      in if r < 1 / 2 then f
         else if 1 / 2 < r then f + 1
         else if even f then f else f + 1)"

definition fmt_fixed :: "nat \<Rightarrow> real \<Rightarrow> string" where
  "fmt_fixed d v =
     (let n = nat (round_half_even (\<bar>v\<bar> * 10 ^ d))
      in (if v < 0 then ''-'' else [])
         @ dec (n div 10 ^ d)
         @ (if d = 0 then [] else ''.'' @ frac_digits d (n mod 10 ^ d)))"

text \<open>\<^verbatim>\<open>snprintf(buffer, n, ...)\<close> keeps at most \<open>n - 1\<close> characters before the terminator.\<close>

definition snprintf :: "nat \<Rightarrow> string \<Rightarrow> string" where
  "snprintf n s = take (n - 1) s"

section \<open>The transmit characteristic\<close>

text \<open>
  \<^verbatim>\<open>BLECharacteristic txChar(txUUID, BLENotify, 512)\<close>: a written value is cut to the
  characteristic's value size.
\<close>

definition TX_VALUE_SIZE :: nat where
  "TX_VALUE_SIZE = 512"

definition writeValue :: "string \<Rightarrow> string" where
  "writeValue v = take TX_VALUE_SIZE v"

section \<open>Frame encoding\<close>

definition orientation_json :: "real \<Rightarrow> real \<Rightarrow> real \<Rightarrow> string" where
  \<open>orientation_json roll pitch yaw =
     ''{"roll":'' @ fmt_fixed 2 roll @ '',"pitch":'' @ fmt_fixed 2 pitch
       @ '',"yaw":'' @ fmt_fixed 2 yaw @ ''}''\<close>

text \<open>\<open>SendOrientation\<close> returns the value handed to \<^verbatim>\<open>txChar.writeValue\<close>.\<close>

definition SendOrientation :: "real \<Rightarrow> real \<Rightarrow> real \<Rightarrow> string" where
  "SendOrientation roll pitch yaw = writeValue (snprintf 128 (orientation_json roll pitch yaw))"

text \<open>The frame of the raw-passthrough sketch, built by \<^verbatim>\<open>String\<close> concatenation.\<close>

definition raw_json :: "sensors_vec_t \<Rightarrow> sensors_vec_t \<Rightarrow> 32 word \<Rightarrow> string" where
  \<open>raw_json accel gyro t =
     ''{''
     @ ''"accel": {"x": '' @ fmt_fixed 4 (vec_x accel)
     @ '', "y": '' @ fmt_fixed 4 (vec_y accel)
     @ '', "z": '' @ fmt_fixed 4 (vec_z accel) @ ''}, ''
     @ ''"gyro": {"x": '' @ fmt_fixed 4 (vec_x gyro)
     @ '', "y": '' @ fmt_fixed 4 (vec_y gyro)
     @ '', "z": '' @ fmt_fixed 4 (vec_z gyro) @ ''}, ''
     @ ''"time": '' @ dec (unat t)
     @ ''}''\<close>

section \<open>The fusion filter\<close>

text \<open>
  \<^verbatim>\<open>Madgwick filter\<close> is an object of the MadgwickAHRS library, which is not part of
  the repository. Its operations are parameters of the model: \<open>'f\<close> is the filter's
  state, and every theorem holds for any implementation of the operations.
\<close>

record 'f Madgwick =
  mw_begin :: "real \<Rightarrow> 'f \<Rightarrow> 'f"
  mw_updateIMU :: "real \<Rightarrow> real \<Rightarrow> real \<Rightarrow> real \<Rightarrow> real \<Rightarrow> real \<Rightarrow> 'f \<Rightarrow> 'f"
  mw_getRoll :: "'f \<Rightarrow> real"
  mw_getPitch :: "'f \<Rightarrow> real"
  mw_getYaw :: "'f \<Rightarrow> real"

text \<open>
  \<open>ReadSensorData\<close> is \<^verbatim>\<open>void\<close>: it fills the two structs and drops the result of
  \<^verbatim>\<open>getEvent\<close>.
\<close>

definition ReadSensorData :: "env \<Rightarrow> sensors_vec_t \<times> sensors_vec_t" where
  "ReadSensorData e = (accel_ev e, gyro_ev e)"

definition ComputeOrientation ::
  "'f Madgwick \<Rightarrow> sensors_vec_t \<Rightarrow> sensors_vec_t \<Rightarrow> 'f \<Rightarrow> 'f \<times> real \<times> real \<times> real" where
  "ComputeOrientation M accel gyro f =
     (let gx = vec_x gyro * 180 / pi;
          gy = vec_y gyro * 180 / pi;
          gz = vec_z gyro * 180 / pi;
          f' = mw_updateIMU M gx gy gz (vec_x accel) (vec_y accel) (vec_z accel) f
      in (f', mw_getRoll M f', mw_getPitch M f', mw_getYaw M f'))"

section \<open>The fused-orientation sketch as a state machine\<close>

text \<open>
  The Arduino runtime calls \<^verbatim>\<open>setup()\<close> once and then \<^verbatim>\<open>loop()\<close> for ever. One step of
  the machine runs the code from one polling point to the next: all of \<^verbatim>\<open>setup\<close> (or up
  to the halting loop it enters), one iteration of a halting loop, one call of \<^verbatim>\<open>loop\<close>
  that finds no central or finds one, one iteration of the \<^verbatim>\<open>while (central.connected())\<close>
  loop, or its exit.
\<close>

datatype halt = Halt_IMU | Halt_BLE

datatype phase = Boot | Halted halt | Idle | Streaming peer

datatype serial_msg =
    Msg_banner
  | Msg_chip_not_found
  | Msg_chip_found
  | Msg_ble_failed
  | Msg_ble_active
  | Msg_config_report
  | Msg_connected peer
  | Msg_sensor sensors_vec_t sensors_vec_t
  | Msg_orientation real real real
  | Msg_raw_sample real sensors_vec_t sensors_vec_t
  | Msg_disconnected

text \<open>
  \<open>tx_log\<close> lists the writes to \<^verbatim>\<open>txChar\<close> with the central held at that moment;
  \<open>delayed_ms\<close> is the time spent in \<^verbatim>\<open>delay\<close>.
\<close>

record 'f sketch =
  phase :: phase
  filter_st :: 'f
  imu_up :: bool
  advertising :: bool
  tx_log :: "(peer \<times> string) list"
  serial_out :: "serial_msg list"
  delayed_ms :: nat

definition power_on :: "'f \<Rightarrow> 'f sketch" where
  "power_on f0 =
     \<lparr>phase = Boot, filter_st = f0, imu_up = False, advertising = False,
      tx_log = [], serial_out = [], delayed_ms = 0\<rparr>"

definition InitializeIMUAndBLE :: "'f Madgwick \<Rightarrow> env \<Rightarrow> 'f sketch \<Rightarrow> 'f sketch" where
  "InitializeIMUAndBLE M e s =
     (if \<not> imu_begin_ok e
      then s\<lparr>serial_out := serial_out s @ [Msg_chip_not_found], phase := Halted Halt_IMU\<rparr>
      else
        let s1 = s\<lparr>imu_up := True,
                   serial_out := serial_out s @ [Msg_chip_found],
                   filter_st := mw_begin M SAMPLE_RATE_HZ (filter_st s)\<rparr>
        in if \<not> ble_begin_ok e
           then s1\<lparr>serial_out := serial_out s1 @ [Msg_ble_failed], phase := Halted Halt_BLE\<rparr>
           else s1\<lparr>advertising := True,
                   serial_out := serial_out s1 @ [Msg_ble_active],
                   phase := Idle\<rparr>)"

definition sketch_setup :: "'f Madgwick \<Rightarrow> env \<Rightarrow> 'f sketch \<Rightarrow> 'f sketch" where
  "sketch_setup M e s = InitializeIMUAndBLE M e s"

text \<open>The body of \<^verbatim>\<open>while (central.connected())\<close>, with \<open>p\<close> the central.\<close>

definition loop_body :: "'f Madgwick \<Rightarrow> env \<Rightarrow> peer \<Rightarrow> 'f sketch \<Rightarrow> 'f sketch" where
  "loop_body M e p s =
     (let (accel, gyro) = ReadSensorData e;
          s1 = s\<lparr>serial_out := serial_out s @ [Msg_sensor accel gyro]\<rparr>;
          (f', roll, pitch, yaw) = ComputeOrientation M accel gyro (filter_st s1);
          s2 = s1\<lparr>filter_st := f',
                  serial_out := serial_out s1 @ [Msg_orientation roll pitch yaw]\<rparr>;
          s3 = s2\<lparr>tx_log := tx_log s2 @ [(p, SendOrientation roll pitch yaw)]\<rparr>
      in s3\<lparr>delayed_ms := delayed_ms s3 + nat LOOP_DELAY_MS\<rparr>)"

definition step :: "'f Madgwick \<Rightarrow> env \<Rightarrow> 'f sketch \<Rightarrow> 'f sketch" where
  "step M e s =
     (case phase s of
        Boot \<Rightarrow> sketch_setup M e s
      | Halted Halt_IMU \<Rightarrow> s\<lparr>delayed_ms := delayed_ms s + 10\<rparr>
      | Halted Halt_BLE \<Rightarrow> s
      | Idle \<Rightarrow>
          (case central e of
             None \<Rightarrow> s
           | Some p \<Rightarrow> s\<lparr>serial_out := serial_out s @ [Msg_connected p], phase := Streaming p\<rparr>)
      | Streaming p \<Rightarrow>
          (if connected e then loop_body M e p s else s\<lparr>phase := Idle\<rparr>))"

definition run :: "'f Madgwick \<Rightarrow> env list \<Rightarrow> 'f sketch \<Rightarrow> 'f sketch" where
  "run M es s = foldl (\<lambda>s e. step M e s) s es"

section \<open>The raw-passthrough sketch as a state machine\<close>

text \<open>
  \<^verbatim>\<open>adafruit_lsm6dso32.ino\<close>: \<^verbatim>\<open>setup\<close> first waits in \<^verbatim>\<open>while (!Serial) delay(10)\<close>,
  then probes the sensor and starts the radio; \<^verbatim>\<open>loop\<close> streams the raw sample with a
  timestamp and has no fusion filter. The report of the sensor's ranges and data rates
  that ends \<^verbatim>\<open>setup\<close> is one message of the serial log.
\<close>

datatype raw_phase = Raw_Boot | Raw_Wait_Serial | Raw_Halted halt | Raw_Idle | Raw_Streaming peer

record raw_sketch =
  rphase :: raw_phase
  currentTime :: "32 word"
  raw_imu_up :: bool
  raw_advertising :: bool
  raw_tx_log :: "(peer \<times> string) list"
  raw_serial_out :: "serial_msg list"
  raw_delayed_ms :: nat

definition raw_power_on :: raw_sketch where
  "raw_power_on =
     \<lparr>rphase = Raw_Boot, currentTime = 0, raw_imu_up = False, raw_advertising = False,
      raw_tx_log = [], raw_serial_out = [], raw_delayed_ms = 0\<rparr>"

text \<open>\<^verbatim>\<open>Serial.begin(115200); currentTime = millis();\<close> up to the first test of \<^verbatim>\<open>Serial\<close>.\<close>

definition raw_setup_begin :: "env \<Rightarrow> raw_sketch \<Rightarrow> raw_sketch" where
  "raw_setup_begin e s = s\<lparr>currentTime := millis e, rphase := Raw_Wait_Serial\<rparr>"

text \<open>The rest of \<^verbatim>\<open>setup\<close>, from the exit of the wait for the serial console.\<close>

definition raw_setup_rest :: "env \<Rightarrow> raw_sketch \<Rightarrow> raw_sketch" where
  "raw_setup_rest e s =
     (let s0 = s\<lparr>raw_serial_out := raw_serial_out s @ [Msg_banner]\<rparr>
      in if \<not> imu_begin_ok e
         then s0\<lparr>raw_serial_out := raw_serial_out s0 @ [Msg_chip_not_found],
                 rphase := Raw_Halted Halt_IMU\<rparr>
         else
           let s1 = s0\<lparr>raw_imu_up := True,
                       raw_serial_out := raw_serial_out s0 @ [Msg_chip_found]\<rparr>
           in if \<not> ble_begin_ok e
              then s1\<lparr>raw_serial_out := raw_serial_out s1 @ [Msg_ble_failed],
                      rphase := Raw_Halted Halt_BLE\<rparr>
              else s1\<lparr>raw_advertising := True,
                      raw_serial_out := raw_serial_out s1 @ [Msg_config_report],
                      rphase := Raw_Idle\<rparr>)"

definition raw_loop_body :: "env \<Rightarrow> peer \<Rightarrow> raw_sketch \<Rightarrow> raw_sketch" where
  "raw_loop_body e p s =
     (let s1 = s\<lparr>currentTime := millis e\<rparr>;
          accel = accel_ev e;
          gyro = gyro_ev e;
          temp = temp_ev e;
          s2 = s1\<lparr>raw_serial_out := raw_serial_out s1 @ [Msg_raw_sample temp accel gyro]\<rparr>;
          json = raw_json accel gyro (currentTime s2)
      in s2\<lparr>raw_tx_log := raw_tx_log s2 @ [(p, writeValue json)]\<rparr>)"

definition raw_step :: "env \<Rightarrow> raw_sketch \<Rightarrow> raw_sketch" where
  "raw_step e s =
     (case rphase s of
        Raw_Boot \<Rightarrow> raw_setup_begin e s
      | Raw_Wait_Serial \<Rightarrow>
          (if \<not> serial_up e then s\<lparr>raw_delayed_ms := raw_delayed_ms s + 10\<rparr>
           else raw_setup_rest e s)
      | Raw_Halted Halt_IMU \<Rightarrow> s\<lparr>raw_delayed_ms := raw_delayed_ms s + 10\<rparr>
      | Raw_Halted Halt_BLE \<Rightarrow> s
      | Raw_Idle \<Rightarrow>
          (case central e of
             None \<Rightarrow> s
           | Some p \<Rightarrow>
               s\<lparr>raw_serial_out := raw_serial_out s @ [Msg_connected p],
                 rphase := Raw_Streaming p\<rparr>)
      | Raw_Streaming p \<Rightarrow>
          (if connected e then raw_loop_body e p s
           else s\<lparr>raw_serial_out := raw_serial_out s @ [Msg_disconnected],
                  raw_delayed_ms := raw_delayed_ms s + 100,
                  rphase := Raw_Idle\<rparr>))"

definition raw_run :: "env list \<Rightarrow> raw_sketch \<Rightarrow> raw_sketch" where
  "raw_run es s = foldl (\<lambda>s e. raw_step e s) s es"

section \<open>Decoding a frame\<close>

text \<open>
  Modelled from the spec: the consumer that parses the frames (the desktop application)
  is not among the sources. The wire format is a JSON object with the fixed key set
  \<open>roll\<close>, \<open>pitch\<close>, \<open>yaw\<close>, each a decimal number; \<open>decode_frame\<close> reads exactly that
  shape and returns the three numbers.
\<close>

definition is_digit :: "char \<Rightarrow> bool" where
  "is_digit c = (c \<in> set ''0123456789'')"

definition digit_val :: "char \<Rightarrow> nat" where
  "digit_val c = of_char c - 48"

definition parse_nat :: "string \<Rightarrow> nat" where
  "parse_nat ds = foldl (\<lambda>n c. 10 * n + digit_val c) 0 ds"

definition expect :: "string \<Rightarrow> string \<Rightarrow> string option" where
  "expect lit s = (if take (length lit) s = lit then Some (drop (length lit) s) else None)"

definition parse_number :: "string \<Rightarrow> (real \<times> string) option" where
  "parse_number s =
     (let neg = (take 1 s = ''-'');
          s1 = (if neg then drop 1 s else s);
          ip = takeWhile is_digit s1;
          s2 = dropWhile is_digit s1;
          sg = (if neg then - 1 else 1)
      in if ip = [] then None
         else if take 1 s2 = ''.''
         then
           let fp = takeWhile is_digit (drop 1 s2);
               s3 = dropWhile is_digit (drop 1 s2)
           in if fp = [] then None
              else Some (sg * (real (parse_nat ip) + real (parse_nat fp) / 10 ^ length fp), s3)
         else Some (sg * real (parse_nat ip), s2))"

definition decode_frame :: "string \<Rightarrow> (real \<times> real \<times> real) option" where
  \<open>decode_frame s =
     (case expect ''{"roll":'' s of None \<Rightarrow> None | Some s1 \<Rightarrow>
      case parse_number s1 of None \<Rightarrow> None | Some (roll, s2) \<Rightarrow>
      case expect '',"pitch":'' s2 of None \<Rightarrow> None | Some s3 \<Rightarrow>
      case parse_number s3 of None \<Rightarrow> None | Some (pitch, s4) \<Rightarrow>
      case expect '',"yaw":'' s4 of None \<Rightarrow> None | Some s5 \<Rightarrow>
      case parse_number s5 of None \<Rightarrow> None | Some (yaw, s6) \<Rightarrow>
      if s6 = ''}'' then Some (roll, pitch, yaw) else None)\<close>

text \<open>
  A rendered number has exactly two decimal digits: an optional sign, at least one
  digit, a point, two digits and nothing more.
\<close>

definition two_decimals :: "string \<Rightarrow> bool" where
  "two_decimals s =
     (let t = (if take 1 s = ''-'' then drop 1 s else s);
          ip = takeWhile is_digit t;
          r = dropWhile is_digit t
      in ip \<noteq> [] \<and> length r = 3 \<and> take 1 r = ''.'' \<and> list_all is_digit (drop 1 r))"

section \<open>What a rendered number stands for\<close>

text \<open>
  \<open>hundredths v\<close> is the number of hundredths that \<^verbatim>\<open>%.2f\<close> prints for \<open>v\<close>, and
  \<open>rounded2 v\<close> the value of the printed text.
\<close>

definition hundredths :: "real \<Rightarrow> nat" where
  "hundredths v = nat (round_half_even (\<bar>v\<bar> * 100))"

definition rounded2 :: "real \<Rightarrow> real" where
  "rounded2 v = (if v < 0 then - 1 else 1) * (real (hundredths v) / 100)"

section \<open>A test double for closed examples\<close>

text \<open>
  The examples that run the fused sketch on concrete inputs need some filter. This one
  stores the rate it was begun with, counts its updates and reports the count as the roll
  angle. It stands for no property of the MadgwickAHRS library.
\<close>

record probe =
  probe_rate :: real
  probe_updates :: nat

definition probe_filter :: "probe Madgwick" where
  "probe_filter =
     \<lparr>mw_begin = (\<lambda>r f. f\<lparr>probe_rate := r\<rparr>),
      mw_updateIMU = (\<lambda>gx gy gz ax ay az f. f\<lparr>probe_updates := Suc (probe_updates f)\<rparr>),
      mw_getRoll = (\<lambda>f. real (probe_updates f)),
      mw_getPitch = (\<lambda>f. 0),
      mw_getYaw = (\<lambda>f. 0)\<rparr>"

definition probe0 :: probe where
  "probe0 = \<lparr>probe_rate = 0, probe_updates = 0\<rparr>"

text \<open>An environment with everything working, the board at rest and no central.\<close>

definition calm :: env where
  "calm =
     \<lparr>serial_up = True, imu_begin_ok = True, ble_begin_ok = True, central = None,
      connected = False, read_ok = True,
      accel_ev = \<lparr>vec_x = 0, vec_y = 0, vec_z = 981 / 100\<rparr>,
      gyro_ev = \<lparr>vec_x = 0, vec_y = 0, vec_z = 0\<rparr>,
      temp_ev = 25, millis = 0\<rparr>"

definition central_c1 :: env where
  "central_c1 = calm\<lparr>central := Some ''c1'', connected := True\<rparr>"

definition central_c2 :: env where
  "central_c2 = calm\<lparr>central := Some ''c2'', connected := True\<rparr>"

definition faulty_read :: env where
  "faulty_read = central_c1\<lparr>read_ok := False\<rparr>"

definition idle0 :: "probe sketch" where
  "idle0 = step probe_filter calm (power_on probe0)"

definition streaming0 :: "probe sketch" where
  "streaming0 = step probe_filter central_c1 idle0"

definition raw_idle0 :: raw_sketch where
  "raw_idle0 = raw_run [calm, calm] raw_power_on"

definition raw_streaming0 :: raw_sketch where
  "raw_streaming0 = raw_step central_c1 raw_idle0"

definition imu_missing :: env where
  "imu_missing = central_c1\<lparr>imu_begin_ok := False\<rparr>"

definition ble_broken :: env where
  "ble_broken = central_c1\<lparr>ble_begin_ok := False\<rparr>"

definition raw_waiting :: raw_sketch where
  "raw_waiting = raw_step calm raw_power_on"

definition no_console :: env where
  "no_console = central_c1\<lparr>serial_up := False\<rparr>"

section \<open>Cadence\<close>

text \<open>
  C1. The claim: the rate the filter is configured with equals the reciprocal of the
  per-tick delay, \<open>SAMPLE_RATE_HZ = 1000 / LOOP_DELAY_MS\<close>. The constants of the
  source do not satisfy it: the filter is told 100 Hz (a step of 10 ms), the loop waits
  100 ms per tick (10 Hz).
\<close>

theorem sample_rate_mismatch:
  "SAMPLE_RATE_HZ = 100 \<and> 1000 / real_of_int LOOP_DELAY_MS = 10
     \<and> SAMPLE_RATE_HZ \<noteq> 1000 / real_of_int LOOP_DELAY_MS"
  by (simp add: SAMPLE_RATE_HZ_def LOOP_DELAY_MS_def)

section \<open>The filter's input boundary\<close>

text \<open>
  What the repository's code does at the boundary of the fusion library: each angular
  rate is multiplied by \<open>180 / pi\<close>, the acceleration is passed on as it was read, and the
  three angles are read from the updated filter. What the library computes from these
  inputs lies outside the repository.
\<close>

lemma ComputeOrientation_feeds_degrees:
  "ComputeOrientation M accel gyro f =
     (let f' = mw_updateIMU M (180 / pi * vec_x gyro) (180 / pi * vec_y gyro)
                 (180 / pi * vec_z gyro) (vec_x accel) (vec_y accel) (vec_z accel) f
      in (f', mw_getRoll M f', mw_getPitch M f', mw_getYaw M f'))"
  by (simp add: ComputeOrientation_def Let_def mult.commute)

section \<open>Facts about single steps and runs\<close>

lemmas step_defs = step_def loop_body_def ReadSensorData_def ComputeOrientation_def Let_def
  sketch_setup_def InitializeIMUAndBLE_def

lemmas raw_step_defs = raw_step_def raw_loop_body_def raw_setup_begin_def raw_setup_rest_def Let_def

lemma run_Nil: "run M [] s = s" by (simp add: run_def)

lemma run_Cons: "run M (e # es) s = run M es (step M e s)" by (simp add: run_def)

lemma run_snoc: "run M (es @ [e]) s = step M e (run M es s)" by (simp add: run_def)

lemma raw_run_Nil: "raw_run [] s = s" by (simp add: raw_run_def)

lemma raw_run_Cons: "raw_run (e # es) s = raw_run es (raw_step e s)" by (simp add: raw_run_def)

lemma step_filter:
  "filter_st (step M e s) =
     (case phase s of
        Boot \<Rightarrow> if imu_begin_ok e then mw_begin M SAMPLE_RATE_HZ (filter_st s) else filter_st s
      | Streaming p \<Rightarrow>
          if connected e then fst (ComputeOrientation M (accel_ev e) (gyro_ev e) (filter_st s))
          else filter_st s
      | _ \<Rightarrow> filter_st s)"
  by (simp add: step_defs split: phase.splits halt.splits option.splits)

lemma step_not_Boot: "phase (step M e s) \<noteq> Boot"
  by (simp add: step_defs split: phase.splits halt.splits option.splits)

lemma step_connect:
  "phase s = Idle \<Longrightarrow> central e = Some p \<Longrightarrow>
   step M e s = s\<lparr>serial_out := serial_out s @ [Msg_connected p], phase := Streaming p\<rparr>"
  by (simp add: step_defs)

lemma step_disconnect:
  "phase s = Streaming p \<Longrightarrow> \<not> connected e \<Longrightarrow> step M e s = s\<lparr>phase := Idle\<rparr>"
  by (simp add: step_defs)

lemma step_idle: "phase s = Idle \<Longrightarrow> central e = None \<Longrightarrow> step M e s = s"
  by (simp add: step_defs)

lemma step_tick:
  "phase s = Streaming p \<Longrightarrow> connected e \<Longrightarrow> step M e s = loop_body M e p s"
  by (simp add: step_defs)

lemma loop_body_phase: "phase (loop_body M e p s) = phase s"
  by (simp add: step_defs split: prod.splits)

lemma loop_body_tx:
  "tx_log (loop_body M e p s) =
     tx_log s @ [(p, case ComputeOrientation M (accel_ev e) (gyro_ev e) (filter_st s) of
                       (f', roll, pitch, yaw) \<Rightarrow> SendOrientation roll pitch yaw)]"
  by (simp add: step_defs split: prod.splits)

lemma dec_numeral: "dec (numeral k) = (if (numeral k :: nat) < 10 then [digit_char (numeral k)]
    else dec (numeral k div 10) @ [digit_char (numeral k mod 10)])"
  by (rule dec.simps)

lemma dec_0: "dec 0 = ''0''" by (subst dec.simps) (simp add: digit_char_def)

lemma dec_1: "dec (Suc 0) = ''1''" by (subst dec.simps) (simp add: digit_char_def)

lemma frac_digits_numeral:
  "frac_digits (numeral k) m = frac_digits (pred_numeral k) (m div 10) @ [digit_char (m mod 10)]"
  by (simp only: numeral_eq_Suc[of k] frac_digits.simps)

lemmas fmt_eval = fmt_fixed_def round_half_even_def dec_numeral dec_0 dec_1 digit_char_def
  snprintf_def writeValue_def TX_VALUE_SIZE_def frac_digits_numeral
  SendOrientation_def orientation_json_def raw_json_def

lemmas example_defs = central_c1_def central_c2_def faulty_read_def idle0_def streaming0_def
  calm_def power_on_def probe_filter_def probe0_def SAMPLE_RATE_HZ_def LOOP_DELAY_MS_def
  raw_power_on_def

lemma idle0_eq: "idle0 = \<lparr>phase = Idle, filter_st = \<lparr>probe_rate = 100, probe_updates = 0\<rparr>,
   imu_up = True, advertising = True, tx_log = [], serial_out = [Msg_chip_found, Msg_ble_active],
   delayed_ms = 0\<rparr>"
  by (simp add: example_defs step_defs)

lemma streaming0_eq: "streaming0 = \<lparr>phase = Streaming ''c1'', filter_st = \<lparr>probe_rate = 100, probe_updates = 0\<rparr>,
   imu_up = True, advertising = True, tx_log = [],
   serial_out = [Msg_chip_found, Msg_ble_active, Msg_connected ''c1''],
   delayed_ms = 0\<rparr>"
  by (simp add: streaming0_def idle0_eq step_defs central_c1_def calm_def)

lemma frame_1_0_0: \<open>SendOrientation 1 0 0 = ''{"roll":1.00,"pitch":0.00,"yaw":0.00}''\<close>
  by (simp add: fmt_eval)

lemma faulty_step:
  "step probe_filter faulty_read streaming0 =
     \<lparr>phase = Streaming ''c1'', filter_st = \<lparr>probe_rate = 100, probe_updates = 1\<rparr>,
      imu_up = True, advertising = True, tx_log = [(''c1'', SendOrientation 1 0 0)],
      serial_out = [Msg_chip_found, Msg_ble_active, Msg_connected ''c1'',
        Msg_sensor \<lparr>vec_x = 0, vec_y = 0, vec_z = 981 / 100\<rparr> \<lparr>vec_x = 0, vec_y = 0, vec_z = 0\<rparr>,
        Msg_orientation 1 0 0],
      delayed_ms = 100\<rparr>"
  by (simp add: streaming0_eq step_defs faulty_read_def central_c1_def calm_def probe_filter_def LOOP_DELAY_MS_def)

lemma step_no_tx:
  "(\<forall>p. phase s \<noteq> Streaming p) \<or> \<not> connected e \<Longrightarrow> tx_log (step M e s) = tx_log s"
  by (auto simp: step_defs split: phase.splits halt.splits option.splits)

lemma run_streaming:
  "phase s = Streaming p \<Longrightarrow> \<forall>e\<in>set es. connected e \<Longrightarrow>
   phase (run M es s) = Streaming p
   \<and> map fst (tx_log (run M es s)) = map fst (tx_log s) @ replicate (length es) p"
proof (induction es arbitrary: s)
  case Nil
  then show ?case by (simp add: run_Nil)
next
  case (Cons e es)
  let ?t = "step M e s"
  from Cons.prems have t: "?t = loop_body M e p s" by (simp add: step_tick)
  have ph: "phase ?t = Streaming p" using Cons.prems by (simp add: t loop_body_phase)
  have tx: "map fst (tx_log ?t) = map fst (tx_log s) @ [p]" by (simp add: t loop_body_tx)
  from Cons.IH [OF ph] Cons.prems
  have "phase (run M es ?t) = Streaming p
    \<and> map fst (tx_log (run M es ?t)) = map fst (tx_log ?t) @ replicate (length es) p"
    by simp
  then show ?case by (simp add: run_Cons tx replicate_app_Cons_same)
qed

lemma run_idle:
  "phase s = Idle \<Longrightarrow> \<forall>e\<in>set es. central e = None \<Longrightarrow> run M es s = s"
  by (induction es arbitrary: s) (simp_all add: run_Nil run_Cons step_idle)

lemma raw_step_connect:
  "rphase r = Raw_Idle \<Longrightarrow> central e = Some p \<Longrightarrow>
   raw_step e r = r\<lparr>raw_serial_out := raw_serial_out r @ [Msg_connected p], rphase := Raw_Streaming p\<rparr>"
  by (simp add: raw_step_defs)

lemma raw_step_idle: "rphase r = Raw_Idle \<Longrightarrow> central e = None \<Longrightarrow> raw_step e r = r"
  by (simp add: raw_step_defs)

lemma raw_step_tick:
  "rphase r = Raw_Streaming p \<Longrightarrow> connected e \<Longrightarrow> raw_step e r = raw_loop_body e p r"
  by (simp add: raw_step_defs)

lemma raw_step_disconnect:
  "rphase r = Raw_Streaming p \<Longrightarrow> \<not> connected e \<Longrightarrow>
   rphase (raw_step e r) = Raw_Idle \<and> raw_tx_log (raw_step e r) = raw_tx_log r"
  by (simp add: raw_step_defs)

lemma raw_loop_body_phase: "rphase (raw_loop_body e p r) = rphase r"
  by (simp add: raw_step_defs)

lemma raw_loop_body_tx:
  "raw_tx_log (raw_loop_body e p r) =
     raw_tx_log r @ [(p, writeValue (raw_json (accel_ev e) (gyro_ev e) (millis e)))]"
  by (simp add: raw_step_defs)

lemma raw_step_no_tx:
  "(\<forall>p. rphase r \<noteq> Raw_Streaming p) \<or> \<not> connected e \<Longrightarrow>
   raw_tx_log (raw_step e r) = raw_tx_log r"
  by (auto simp: raw_step_defs split: raw_phase.splits halt.splits option.splits)

lemma raw_run_streaming:
  "rphase r = Raw_Streaming p \<Longrightarrow> \<forall>e\<in>set es. connected e \<Longrightarrow>
   rphase (raw_run es r) = Raw_Streaming p
   \<and> map fst (raw_tx_log (raw_run es r)) = map fst (raw_tx_log r) @ replicate (length es) p"
proof (induction es arbitrary: r)
  case Nil
  then show ?case by (simp add: raw_run_Nil)
next
  case (Cons e es)
  let ?t = "raw_step e r"
  from Cons.prems have t: "?t = raw_loop_body e p r" by (simp add: raw_step_tick)
  have ph: "rphase ?t = Raw_Streaming p" using Cons.prems by (simp add: t raw_loop_body_phase)
  have tx: "map fst (raw_tx_log ?t) = map fst (raw_tx_log r) @ [p]"
    by (simp add: t raw_loop_body_tx)
  from Cons.IH [OF ph] Cons.prems
  have "rphase (raw_run es ?t) = Raw_Streaming p
    \<and> map fst (raw_tx_log (raw_run es ?t)) = map fst (raw_tx_log ?t) @ replicate (length es) p"
    by simp
  then show ?case by (simp add: raw_run_Cons tx replicate_app_Cons_same)
qed

lemma raw_run_idle:
  "rphase r = Raw_Idle \<Longrightarrow> \<forall>e\<in>set es. central e = None \<Longrightarrow> raw_run es r = r"
  by (induction es arbitrary: r) (simp_all add: raw_run_Nil raw_run_Cons raw_step_idle)

lemma raw_idle0_eq:
  "raw_idle0 = \<lparr>rphase = Raw_Idle, currentTime = 0, raw_imu_up = True, raw_advertising = True,
     raw_tx_log = [], raw_serial_out = [Msg_banner, Msg_chip_found, Msg_config_report],
     raw_delayed_ms = 0\<rparr>"
  by (simp add: raw_idle0_def raw_run_Cons raw_run_Nil raw_step_defs raw_power_on_def calm_def)

lemma raw_streaming0_eq:
  "raw_streaming0 = \<lparr>rphase = Raw_Streaming ''c1'', currentTime = 0, raw_imu_up = True,
     raw_advertising = True, raw_tx_log = [],
     raw_serial_out = [Msg_banner, Msg_chip_found, Msg_config_report, Msg_connected ''c1''],
     raw_delayed_ms = 0\<rparr>"
  by (simp add: raw_streaming0_def raw_idle0_eq raw_step_defs central_c1_def calm_def)

lemma frame_0_0_0: \<open>SendOrientation 0 0 0 = ''{"roll":0.00,"pitch":0.00,"yaw":0.00}''\<close>
  by (simp add: fmt_eval)

lemma raw_frame_calm:
  \<open>writeValue (raw_json (accel_ev central_c1) (gyro_ev central_c1) (millis central_c1)) =
   ''{"accel": {"x": 0.0000, "y": 0.0000, "z": 9.8100}, "gyro": {"x": 0.0000, "y": 0.0000, "z": 0.0000}, "time": 0}''\<close>
  by (simp add: central_c1_def calm_def fmt_eval)

lemma probe_orientation:
  "ComputeOrientation probe_filter a g f =
     (f\<lparr>probe_updates := Suc (probe_updates f)\<rparr>, real (Suc (probe_updates f)), 0, 0)"
  by (simp add: ComputeOrientation_def probe_filter_def)

lemma step_halted:
  "phase s = Halted c \<Longrightarrow>
   phase (step M e s) = Halted c \<and> tx_log (step M e s) = tx_log s
   \<and> filter_st (step M e s) = filter_st s \<and> advertising (step M e s) = advertising s"
  by (simp add: step_def split: halt.splits)

lemma run_halted:
  "phase s = Halted c \<Longrightarrow>
   phase (run M es s) = Halted c \<and> tx_log (run M es s) = tx_log s
   \<and> filter_st (run M es s) = filter_st s \<and> advertising (run M es s) = advertising s"
proof (induction es arbitrary: s)
  case Nil
  then show ?case by (simp add: run_Nil)
next
  case (Cons e es)
  from step_halted [OF Cons.prems, of M e] Cons.IH [of "step M e s"]
  show ?case by (simp add: run_Cons)
qed

lemma step_boot_failure:
  "phase s = Boot \<Longrightarrow> \<not> imu_begin_ok e \<or> \<not> ble_begin_ok e \<Longrightarrow>
   phase (step M e s) = Halted (if \<not> imu_begin_ok e then Halt_IMU else Halt_BLE)
   \<and> tx_log (step M e s) = tx_log s \<and> advertising (step M e s) = advertising s"
  by (auto simp: step_defs)

lemma step_boot_success:
  "phase s = Boot \<Longrightarrow> imu_begin_ok e \<Longrightarrow> ble_begin_ok e \<Longrightarrow>
   phase (step M e s) = Idle \<and> advertising (step M e s) \<and> imu_up (step M e s)"
  by (simp add: step_defs)

lemma raw_step_halted:
  "rphase r = Raw_Halted c \<Longrightarrow>
   rphase (raw_step e r) = Raw_Halted c \<and> raw_tx_log (raw_step e r) = raw_tx_log r
   \<and> raw_advertising (raw_step e r) = raw_advertising r"
  by (simp add: raw_step_def split: halt.splits)

lemma raw_run_halted:
  "rphase r = Raw_Halted c \<Longrightarrow>
   rphase (raw_run es r) = Raw_Halted c \<and> raw_tx_log (raw_run es r) = raw_tx_log r
   \<and> raw_advertising (raw_run es r) = raw_advertising r"
proof (induction es arbitrary: r)
  case Nil
  then show ?case by (simp add: raw_run_Nil)
next
  case (Cons e es)
  from raw_step_halted [OF Cons.prems, of e] Cons.IH [of "raw_step e r"]
  show ?case by (simp add: raw_run_Cons)
qed

lemma raw_step_setup_failure:
  "rphase r = Raw_Wait_Serial \<Longrightarrow> serial_up e \<Longrightarrow> \<not> imu_begin_ok e \<or> \<not> ble_begin_ok e \<Longrightarrow>
   rphase (raw_step e r) = Raw_Halted (if \<not> imu_begin_ok e then Halt_IMU else Halt_BLE)
   \<and> raw_tx_log (raw_step e r) = raw_tx_log r
   \<and> raw_advertising (raw_step e r) = raw_advertising r"
  by (auto simp: raw_step_defs)

lemma raw_step_setup_success:
  "rphase r = Raw_Wait_Serial \<Longrightarrow> serial_up e \<Longrightarrow> imu_begin_ok e \<Longrightarrow> ble_begin_ok e \<Longrightarrow>
   rphase (raw_step e r) = Raw_Idle \<and> raw_advertising (raw_step e r) \<and> raw_imu_up (raw_step e r)"
  by (simp add: raw_step_defs)

lemma raw_waiting_eq:
  "raw_waiting = \<lparr>rphase = Raw_Wait_Serial, currentTime = 0, raw_imu_up = False,
     raw_advertising = False, raw_tx_log = [], raw_serial_out = [], raw_delayed_ms = 0\<rparr>"
  by (simp add: raw_waiting_def raw_step_defs raw_power_on_def calm_def)

lemma raw_step_waiting:
  "rphase r \<in> {Raw_Boot, Raw_Wait_Serial} \<Longrightarrow> \<not> serial_up e \<Longrightarrow>
   rphase (raw_step e r) = Raw_Wait_Serial
   \<and> raw_imu_up (raw_step e r) = raw_imu_up r
   \<and> raw_advertising (raw_step e r) = raw_advertising r
   \<and> raw_tx_log (raw_step e r) = raw_tx_log r
   \<and> raw_serial_out (raw_step e r) = raw_serial_out r"
  by (auto simp: raw_step_defs)

lemma raw_run_waiting:
  "rphase r \<in> {Raw_Boot, Raw_Wait_Serial} \<Longrightarrow> \<forall>e\<in>set es. \<not> serial_up e \<Longrightarrow>
   rphase (raw_run es r) \<in> {Raw_Boot, Raw_Wait_Serial}
   \<and> raw_imu_up (raw_run es r) = raw_imu_up r
   \<and> raw_advertising (raw_run es r) = raw_advertising r
   \<and> raw_tx_log (raw_run es r) = raw_tx_log r
   \<and> raw_serial_out (raw_run es r) = raw_serial_out r"
proof (induction es arbitrary: r)
  case Nil
  then show ?case by (simp add: raw_run_Nil)
next
  case (Cons e es)
  from Cons.prems have ns: "\<not> serial_up e" by simp
  note st = raw_step_waiting [OF Cons.prems(1) ns]
  from st have ph: "rphase (raw_step e r) \<in> {Raw_Boot, Raw_Wait_Serial}" by simp
  from Cons.prems have rest: "\<forall>e\<in>set es. \<not> serial_up e" by simp
  from Cons.IH [OF ph rest] st show ?case by (simp add: raw_run_Cons)
qed

section \<open>Sensor faults\<close>

text \<open>
  C2, the claim as stated fails: with a central connected, a tick on which \<^verbatim>\<open>getEvent\<close>
  reports failure still advances the filter and still writes a frame.
\<close>

theorem sensor_fault_still_fuses_and_sends:
  \<open>phase streaming0 = Streaming ''c1'' \<and> connected faulty_read \<and> \<not> read_ok faulty_read
   \<and> tx_log streaming0 = []
   \<and> tx_log (step probe_filter faulty_read streaming0)
       = [(''c1'', ''{"roll":1.00,"pitch":0.00,"yaw":0.00}'')]
   \<and> filter_st (step probe_filter faulty_read streaming0) \<noteq> filter_st streaming0\<close>
proof -
  have h: "connected faulty_read \<and> \<not> read_ok faulty_read"
    by (simp add: faulty_read_def central_c1_def)
  have t: "phase streaming0 = Streaming ''c1'' \<and> tx_log streaming0 = []
      \<and> filter_st streaming0 = \<lparr>probe_rate = 100, probe_updates = 0\<rparr>"
    by (simp add: streaming0_eq)
  from h t show ?thesis by (simp add: faulty_step frame_1_0_0)
qed

text \<open>
  C2, as the code has it: the result of the sensor read is dropped by \<open>ReadSensorData\<close>,
  so it has no influence on a step. On every tick of the Streaming state, whether the
  read reports success or failure, the connection state does not change, the loop goes
  on, the filter is advanced with the contents of the event structs and exactly one
  frame is written for the connected central.
\<close>

theorem sensor_result_ignored:
  assumes "phase s = Streaming p" and "connected e"
  shows "step M (e\<lparr>read_ok := b\<rparr>) s = step M e s
     \<and> phase (step M e s) = Streaming p
     \<and> filter_st (step M e s) = fst (ComputeOrientation M (accel_ev e) (gyro_ev e) (filter_st s))
     \<and> tx_log (step M e s) =
         tx_log s @ [(p, case ComputeOrientation M (accel_ev e) (gyro_ev e) (filter_st s) of
                           (f', roll, pitch, yaw) \<Rightarrow> SendOrientation roll pitch yaw)]"
proof (intro conjI)
  show "step M (e\<lparr>read_ok := b\<rparr>) s = step M e s"
    by (simp add: step_defs split: phase.splits halt.splits option.splits)
  from assms show "phase (step M e s) = Streaming p"
    by (simp add: step_tick loop_body_phase)
  from assms show "filter_st (step M e s)
      = fst (ComputeOrientation M (accel_ev e) (gyro_ev e) (filter_st s))"
    by (simp add: step_filter)
  from assms show "tx_log (step M e s) =
         tx_log s @ [(p, case ComputeOrientation M (accel_ev e) (gyro_ev e) (filter_st s) of
                           (f', roll, pitch, yaw) \<Rightarrow> SendOrientation roll pitch yaw)]"
    by (simp add: step_tick loop_body_tx)
qed

text \<open>The same tick with the failing read, evaluated.\<close>

theorem sensor_result_ignored_witness:
  \<open>phase streaming0 = Streaming ''c1'' \<and> connected faulty_read \<and> \<not> read_ok faulty_read
   \<and> step probe_filter (faulty_read\<lparr>read_ok := True\<rparr>) streaming0
       = step probe_filter faulty_read streaming0
   \<and> phase (step probe_filter faulty_read streaming0) = Streaming ''c1''
   \<and> filter_st (step probe_filter faulty_read streaming0) = \<lparr>probe_rate = 100, probe_updates = 1\<rparr>
   \<and> tx_log (step probe_filter faulty_read streaming0)
       = [(''c1'', ''{"roll":1.00,"pitch":0.00,"yaw":0.00}'')]\<close>
proof -
  have h1: "phase streaming0 = Streaming ''c1''" by (simp add: streaming0_eq)
  have h2: "connected faulty_read" by (simp add: faulty_read_def central_c1_def)
  have h3: "\<not> read_ok faulty_read" by (simp add: faulty_read_def)
  have h4: "tx_log streaming0 = [] \<and> filter_st streaming0 = \<lparr>probe_rate = 100, probe_updates = 0\<rparr>"
    by (simp add: streaming0_eq)
  from sensor_result_ignored [OF h1 h2, of probe_filter True] h1 h2 h3 h4 show ?thesis
    by (simp add: probe_orientation frame_1_0_0)
qed

section \<open>Continuity of the filter state\<close>

text \<open>
  C6. The filter state is set up once, by \<^verbatim>\<open>filter.begin\<close> in the boot step, and no
  connection transition resets it: an Idle to Streaming transition changes nothing but
  the recorded central (and the line on the debug console), also when it follows a
  disconnect; after boot a step either leaves the filter state alone or advances it by
  one \<open>ComputeOrientation\<close>, and the boot phase is never entered again.
\<close>

theorem filter_not_reset_on_connect:
  "(phase s = Idle \<and> central e = Some p \<longrightarrow>
      step M e s = s\<lparr>serial_out := serial_out s @ [Msg_connected p], phase := Streaming p\<rparr>
      \<and> filter_st (step M e s) = filter_st s)
   \<and> (phase s = Streaming p \<and> \<not> connected e \<and> central e' = Some q \<longrightarrow>
      phase (step M e' (step M e s)) = Streaming q
      \<and> filter_st (step M e' (step M e s)) = filter_st s)
   \<and> filter_st (step M e s) =
       (case phase s of
          Boot \<Rightarrow> if imu_begin_ok e then mw_begin M SAMPLE_RATE_HZ (filter_st s) else filter_st s
        | Streaming c \<Rightarrow>
            if connected e
            then fst (ComputeOrientation M (accel_ev e) (gyro_ev e) (filter_st s))
            else filter_st s
        | _ \<Rightarrow> filter_st s)
   \<and> phase (step M e s) \<noteq> Boot"
proof (intro conjI impI)
  assume a: "phase s = Idle \<and> central e = Some p"
  then show "step M e s = s\<lparr>serial_out := serial_out s @ [Msg_connected p], phase := Streaming p\<rparr>"
    by (simp add: step_connect)
  from a show "filter_st (step M e s) = filter_st s"
    by (simp add: step_connect)
next
  assume a: "phase s = Streaming p \<and> \<not> connected e \<and> central e' = Some q"
  then have d: "step M e s = s\<lparr>phase := Idle\<rparr>" by (simp add: step_disconnect)
  from a show "phase (step M e' (step M e s)) = Streaming q"
    by (simp add: d step_connect)
  from a show "filter_st (step M e' (step M e s)) = filter_st s"
    by (simp add: d step_connect)
next
  show "filter_st (step M e s) =
       (case phase s of
          Boot \<Rightarrow> if imu_begin_ok e then mw_begin M SAMPLE_RATE_HZ (filter_st s) else filter_st s
        | Streaming c \<Rightarrow>
            if connected e
            then fst (ComputeOrientation M (accel_ev e) (gyro_ev e) (filter_st s))
            else filter_st s
        | _ \<Rightarrow> filter_st s)"
    by (rule step_filter)
next
  show "phase (step M e s) \<noteq> Boot" by (rule step_not_Boot)
qed

text \<open>A first connection and a reconnection, evaluated.\<close>

theorem filter_not_reset_on_connect_witness:
  "phase idle0 = Idle \<and> central central_c1 = Some ''c1''
   \<and> step probe_filter central_c1 idle0
       = idle0\<lparr>serial_out := serial_out idle0 @ [Msg_connected ''c1''], phase := Streaming ''c1''\<rparr>
   \<and> filter_st (step probe_filter central_c1 idle0) = filter_st idle0
   \<and> phase streaming0 = Streaming ''c1'' \<and> \<not> connected calm \<and> central central_c2 = Some ''c2''
   \<and> phase (step probe_filter central_c2 (step probe_filter calm streaming0)) = Streaming ''c2''
   \<and> filter_st (step probe_filter central_c2 (step probe_filter calm streaming0)) = filter_st streaming0
   \<and> phase (step probe_filter central_c1 idle0) \<noteq> Boot"
proof -
  have h1: "phase idle0 = Idle \<and> central central_c1 = Some ''c1''"
    by (simp add: idle0_eq central_c1_def calm_def)
  have h2: "phase streaming0 = Streaming ''c1'' \<and> \<not> connected calm \<and> central central_c2 = Some ''c2''"
    by (simp add: streaming0_eq central_c2_def calm_def)
  note a = filter_not_reset_on_connect
     [where s = idle0 and e = central_c1 and p = "''c1''" and M = probe_filter
        and e' = central_c2 and q = "''c2''"]
  note b = filter_not_reset_on_connect
     [where s = streaming0 and e = calm and p = "''c1''" and M = probe_filter
        and e' = central_c2 and q = "''c2''"]
  from a h1 have c1: "step probe_filter central_c1 idle0
       = idle0\<lparr>serial_out := serial_out idle0 @ [Msg_connected ''c1''], phase := Streaming ''c1''\<rparr>
     \<and> filter_st (step probe_filter central_c1 idle0) = filter_st idle0
     \<and> phase (step probe_filter central_c1 idle0) \<noteq> Boot"
    by blast
  from b h2 have c2: "phase (step probe_filter central_c2 (step probe_filter calm streaming0)) = Streaming ''c2''
   \<and> filter_st (step probe_filter central_c2 (step probe_filter calm streaming0)) = filter_st streaming0"
    by blast
  from h1 h2 c1 c2 show ?thesis by blast
qed

section \<open>Frames and the connection state\<close>

text \<open>
  C7. In both sketches: from Idle a reported central leads to Streaming without a write;
  each tick with the central connected writes exactly one frame, for that central, and
  stays in Streaming; a tick that finds the central gone returns to Idle without a
  write; Idle with no central changes nothing; no step outside Streaming or with the
  central gone writes anything; \<open>n\<close> connected ticks write \<open>n\<close> frames, all for that
  central.
\<close>

theorem frames_only_while_connected:
  "(phase s = Idle \<and> central e = Some p \<longrightarrow>
      phase (step M e s) = Streaming p \<and> tx_log (step M e s) = tx_log s)
   \<and> (phase s = Streaming p \<and> connected e \<longrightarrow>
      phase (step M e s) = Streaming p
      \<and> tx_log (step M e s) =
          tx_log s @ [(p, case ComputeOrientation M (accel_ev e) (gyro_ev e) (filter_st s) of
                            (f', roll, pitch, yaw) \<Rightarrow> SendOrientation roll pitch yaw)])
   \<and> (phase s = Streaming p \<and> \<not> connected e \<longrightarrow>
      phase (step M e s) = Idle \<and> tx_log (step M e s) = tx_log s)
   \<and> (phase s = Idle \<and> (\<forall>e\<in>set es. central e = None) \<longrightarrow> run M es s = s)
   \<and> ((\<forall>c. phase s \<noteq> Streaming c) \<or> \<not> connected e \<longrightarrow> tx_log (step M e s) = tx_log s)
   \<and> (phase s = Streaming p \<and> (\<forall>e\<in>set es. connected e) \<longrightarrow>
      phase (run M es s) = Streaming p
      \<and> map fst (tx_log (run M es s)) = map fst (tx_log s) @ replicate (length es) p)
   \<and> (rphase r = Raw_Idle \<and> central e = Some p \<longrightarrow>
      rphase (raw_step e r) = Raw_Streaming p \<and> raw_tx_log (raw_step e r) = raw_tx_log r)
   \<and> (rphase r = Raw_Streaming p \<and> connected e \<longrightarrow>
      rphase (raw_step e r) = Raw_Streaming p
      \<and> raw_tx_log (raw_step e r) =
          raw_tx_log r @ [(p, writeValue (raw_json (accel_ev e) (gyro_ev e) (millis e)))])
   \<and> (rphase r = Raw_Streaming p \<and> \<not> connected e \<longrightarrow>
      rphase (raw_step e r) = Raw_Idle \<and> raw_tx_log (raw_step e r) = raw_tx_log r)
   \<and> (rphase r = Raw_Idle \<and> (\<forall>e\<in>set es. central e = None) \<longrightarrow> raw_run es r = r)
   \<and> ((\<forall>c. rphase r \<noteq> Raw_Streaming c) \<or> \<not> connected e \<longrightarrow>
      raw_tx_log (raw_step e r) = raw_tx_log r)
   \<and> (rphase r = Raw_Streaming p \<and> (\<forall>e\<in>set es. connected e) \<longrightarrow>
      rphase (raw_run es r) = Raw_Streaming p
      \<and> map fst (raw_tx_log (raw_run es r)) = map fst (raw_tx_log r) @ replicate (length es) p)"
proof -
  have f1: "phase s = Idle \<and> central e = Some p \<longrightarrow>
      phase (step M e s) = Streaming p \<and> tx_log (step M e s) = tx_log s"
    by (simp add: step_connect)
  have f2: "phase s = Streaming p \<and> connected e \<longrightarrow>
      phase (step M e s) = Streaming p
      \<and> tx_log (step M e s) =
          tx_log s @ [(p, case ComputeOrientation M (accel_ev e) (gyro_ev e) (filter_st s) of
                            (f', roll, pitch, yaw) \<Rightarrow> SendOrientation roll pitch yaw)]"
    by (simp add: step_tick loop_body_phase loop_body_tx)
  have f3: "phase s = Streaming p \<and> \<not> connected e \<longrightarrow>
      phase (step M e s) = Idle \<and> tx_log (step M e s) = tx_log s"
    by (simp add: step_disconnect)
  have f4: "phase s = Idle \<and> (\<forall>e\<in>set es. central e = None) \<longrightarrow> run M es s = s"
    by (simp add: run_idle)
  have f5: "(\<forall>c. phase s \<noteq> Streaming c) \<or> \<not> connected e \<longrightarrow> tx_log (step M e s) = tx_log s"
    using step_no_tx [of s e M] by blast
  have f6: "phase s = Streaming p \<and> (\<forall>e\<in>set es. connected e) \<longrightarrow>
      phase (run M es s) = Streaming p
      \<and> map fst (tx_log (run M es s)) = map fst (tx_log s) @ replicate (length es) p"
    using run_streaming [of s p es M] by blast
  have r1: "rphase r = Raw_Idle \<and> central e = Some p \<longrightarrow>
      rphase (raw_step e r) = Raw_Streaming p \<and> raw_tx_log (raw_step e r) = raw_tx_log r"
    by (simp add: raw_step_connect)
  have r2: "rphase r = Raw_Streaming p \<and> connected e \<longrightarrow>
      rphase (raw_step e r) = Raw_Streaming p
      \<and> raw_tx_log (raw_step e r) =
          raw_tx_log r @ [(p, writeValue (raw_json (accel_ev e) (gyro_ev e) (millis e)))]"
    by (simp add: raw_step_tick raw_loop_body_phase raw_loop_body_tx)
  have r3: "rphase r = Raw_Streaming p \<and> \<not> connected e \<longrightarrow>
      rphase (raw_step e r) = Raw_Idle \<and> raw_tx_log (raw_step e r) = raw_tx_log r"
    using raw_step_disconnect [of r p e] by blast
  have r4: "rphase r = Raw_Idle \<and> (\<forall>e\<in>set es. central e = None) \<longrightarrow> raw_run es r = r"
    by (simp add: raw_run_idle)
  have r5: "(\<forall>c. rphase r \<noteq> Raw_Streaming c) \<or> \<not> connected e \<longrightarrow>
      raw_tx_log (raw_step e r) = raw_tx_log r"
    using raw_step_no_tx [of r e] by blast
  have r6: "rphase r = Raw_Streaming p \<and> (\<forall>e\<in>set es. connected e) \<longrightarrow>
      rphase (raw_run es r) = Raw_Streaming p
      \<and> map fst (raw_tx_log (raw_run es r)) = map fst (raw_tx_log r) @ replicate (length es) p"
    using raw_run_streaming [of r p es] by blast
  from f1 f2 f3 f4 f5 f6 r1 r2 r3 r4 r5 r6 show ?thesis by (intro conjI)
qed

text \<open>Connect, stream, disconnect and idle, evaluated for both sketches.\<close>

theorem frames_only_while_connected_witness:
  \<open>phase idle0 = Idle \<and> central central_c1 = Some ''c1''
   \<and> phase (step probe_filter central_c1 idle0) = Streaming ''c1''
   \<and> tx_log (step probe_filter central_c1 idle0) = []
   \<and> phase streaming0 = Streaming ''c1'' \<and> connected central_c1
   \<and> tx_log (step probe_filter central_c1 streaming0)
       = [(''c1'', ''{"roll":1.00,"pitch":0.00,"yaw":0.00}'')]
   \<and> \<not> connected calm
   \<and> phase (step probe_filter calm streaming0) = Idle
   \<and> tx_log (step probe_filter calm streaming0) = []
   \<and> central calm = None
   \<and> run probe_filter [calm, calm] idle0 = idle0
   \<and> map fst (tx_log (run probe_filter [central_c1, central_c1, central_c1] streaming0))
       = [''c1'', ''c1'', ''c1'']
   \<and> rphase raw_idle0 = Raw_Idle
   \<and> rphase (raw_step central_c1 raw_idle0) = Raw_Streaming ''c1''
   \<and> raw_tx_log (raw_step central_c1 raw_idle0) = []
   \<and> rphase raw_streaming0 = Raw_Streaming ''c1''
   \<and> raw_tx_log (raw_step central_c1 raw_streaming0)
       = [(''c1'', ''{"accel": {"x": 0.0000, "y": 0.0000, "z": 9.8100}, "gyro": {"x": 0.0000, "y": 0.0000, "z": 0.0000}, "time": 0}'')]
   \<and> rphase (raw_step calm raw_streaming0) = Raw_Idle
   \<and> raw_tx_log (raw_step calm raw_streaming0) = []
   \<and> raw_run [calm, calm] raw_idle0 = raw_idle0
   \<and> map fst (raw_tx_log (raw_run [central_c1, central_c1] raw_streaming0)) = [''c1'', ''c1'']\<close>
proof -
  have e: "central central_c1 = Some ''c1'' \<and> connected central_c1
      \<and> \<not> connected calm \<and> central calm = None"
    by (simp add: central_c1_def calm_def)
  have i: "phase idle0 = Idle \<and> tx_log idle0 = []" by (simp add: idle0_eq)
  have t: "phase streaming0 = Streaming ''c1'' \<and> tx_log streaming0 = []
      \<and> probe_updates (filter_st streaming0) = 0"
    by (simp add: streaming0_eq)
  have ri: "rphase raw_idle0 = Raw_Idle \<and> raw_tx_log raw_idle0 = []" by (simp add: raw_idle0_eq)
  have rt: "rphase raw_streaming0 = Raw_Streaming ''c1'' \<and> raw_tx_log raw_streaming0 = []"
    by (simp add: raw_streaming0_eq)
  note a = frames_only_while_connected
    [where s = idle0 and e = central_c1 and p = "''c1''" and M = probe_filter
       and es = "[calm, calm]" and r = raw_idle0]
  note b = frames_only_while_connected
    [where s = streaming0 and e = central_c1 and p = "''c1''" and M = probe_filter
       and es = "[central_c1, central_c1, central_c1]" and r = raw_streaming0]
  note c = frames_only_while_connected
    [where s = streaming0 and e = calm and p = "''c1''" and M = probe_filter
       and es = "[central_c1, central_c1]" and r = raw_streaming0]
  show ?thesis
    using e i t ri rt a b c
    by (simp add: probe_orientation frame_1_0_0 raw_frame_calm)
qed

section \<open>Initialisation failures\<close>

text \<open>
  C9. In both sketches, when the sensor or the radio fails to start, the boot step ends in
  a halting loop, and whatever the environment does afterwards the sketch stays there:
  nothing is ever written to the characteristic, advertising never starts and the
  filter is never updated (it is as \<^verbatim>\<open>setup\<close> left it: begun if the sensor was found,
  untouched otherwise).
\<close>

theorem init_failure_is_fatal:
  "(phase s = Boot \<and> (\<not> imu_begin_ok e \<or> \<not> ble_begin_ok e) \<longrightarrow>
      phase (step M e s) = Halted (if \<not> imu_begin_ok e then Halt_IMU else Halt_BLE)
      \<and> phase (run M es (step M e s)) = phase (step M e s)
      \<and> tx_log (run M es (step M e s)) = tx_log s
      \<and> filter_st (run M es (step M e s))
          = (if imu_begin_ok e then mw_begin M SAMPLE_RATE_HZ (filter_st s) else filter_st s)
      \<and> advertising (run M es (step M e s)) = advertising s)
   \<and> (rphase r = Raw_Wait_Serial \<and> serial_up e \<and> (\<not> imu_begin_ok e \<or> \<not> ble_begin_ok e) \<longrightarrow>
      rphase (raw_step e r) = Raw_Halted (if \<not> imu_begin_ok e then Halt_IMU else Halt_BLE)
      \<and> rphase (raw_run es (raw_step e r)) = rphase (raw_step e r)
      \<and> raw_tx_log (raw_run es (raw_step e r)) = raw_tx_log r
      \<and> raw_advertising (raw_run es (raw_step e r)) = raw_advertising r)"
proof (intro conjI impI)
  assume a: "phase s = Boot \<and> (\<not> imu_begin_ok e \<or> \<not> ble_begin_ok e)"
  let ?h = "step M e s"
  from a have b: "phase ?h = Halted (if \<not> imu_begin_ok e then Halt_IMU else Halt_BLE)
      \<and> tx_log ?h = tx_log s \<and> advertising ?h = advertising s"
    using step_boot_failure [of s e M] by blast
  from a have f: "filter_st ?h
      = (if imu_begin_ok e then mw_begin M SAMPLE_RATE_HZ (filter_st s) else filter_st s)"
    by (simp add: step_filter)
  from b have ph: "phase ?h = Halted (if \<not> imu_begin_ok e then Halt_IMU else Halt_BLE)" by simp
  note r = run_halted [OF ph, of M es]
  from ph show "phase ?h = Halted (if \<not> imu_begin_ok e then Halt_IMU else Halt_BLE)" .
  from r ph show "phase (run M es ?h) = phase ?h" by simp
  from r b show "tx_log (run M es ?h) = tx_log s" by simp
  from r f show "filter_st (run M es ?h)
      = (if imu_begin_ok e then mw_begin M SAMPLE_RATE_HZ (filter_st s) else filter_st s)"
    by simp
  from r b show "advertising (run M es ?h) = advertising s" by simp
next
  assume a: "rphase r = Raw_Wait_Serial \<and> serial_up e \<and> (\<not> imu_begin_ok e \<or> \<not> ble_begin_ok e)"
  let ?h = "raw_step e r"
  from a have b: "rphase ?h = Raw_Halted (if \<not> imu_begin_ok e then Halt_IMU else Halt_BLE)
      \<and> raw_tx_log ?h = raw_tx_log r \<and> raw_advertising ?h = raw_advertising r"
    using raw_step_setup_failure [of r e] by blast
  then have ph: "rphase ?h = Raw_Halted (if \<not> imu_begin_ok e then Halt_IMU else Halt_BLE)"
    by simp
  note rr = raw_run_halted [OF ph, of es]
  from ph show "rphase ?h = Raw_Halted (if \<not> imu_begin_ok e then Halt_IMU else Halt_BLE)" .
  from rr ph show "rphase (raw_run es ?h) = rphase ?h" by simp
  from rr b show "raw_tx_log (raw_run es ?h) = raw_tx_log r" by simp
  from rr b show "raw_advertising (raw_run es ?h) = raw_advertising r" by simp
qed

text \<open>A missing sensor and a failing radio, evaluated.\<close>

theorem init_failure_is_fatal_witness:
  "phase (power_on probe0) = Boot \<and> \<not> imu_begin_ok imu_missing
   \<and> phase (step probe_filter imu_missing (power_on probe0)) = Halted Halt_IMU
   \<and> phase (run probe_filter [central_c1, central_c1, calm, central_c2]
        (step probe_filter imu_missing (power_on probe0))) = Halted Halt_IMU
   \<and> tx_log (run probe_filter [central_c1, central_c1, calm, central_c2]
        (step probe_filter imu_missing (power_on probe0))) = []
   \<and> filter_st (run probe_filter [central_c1, central_c1, calm, central_c2]
        (step probe_filter imu_missing (power_on probe0))) = probe0
   \<and> \<not> advertising (run probe_filter [central_c1, central_c1, calm, central_c2]
        (step probe_filter imu_missing (power_on probe0)))
   \<and> imu_begin_ok ble_broken \<and> \<not> ble_begin_ok ble_broken
   \<and> phase (run probe_filter [central_c1, central_c1]
        (step probe_filter ble_broken (power_on probe0))) = Halted Halt_BLE
   \<and> tx_log (run probe_filter [central_c1, central_c1]
        (step probe_filter ble_broken (power_on probe0))) = []
   \<and> filter_st (run probe_filter [central_c1, central_c1]
        (step probe_filter ble_broken (power_on probe0))) = \<lparr>probe_rate = 100, probe_updates = 0\<rparr>
   \<and> rphase raw_waiting = Raw_Wait_Serial \<and> serial_up ble_broken
   \<and> rphase (raw_run [central_c1, central_c1] (raw_step ble_broken raw_waiting)) = Raw_Halted Halt_BLE
   \<and> raw_tx_log (raw_run [central_c1, central_c1] (raw_step ble_broken raw_waiting)) = []
   \<and> \<not> raw_advertising (raw_run [central_c1, central_c1] (raw_step ble_broken raw_waiting))"
proof -
  have e: "\<not> imu_begin_ok imu_missing \<and> imu_begin_ok ble_broken \<and> \<not> ble_begin_ok ble_broken
      \<and> serial_up ble_broken"
    by (simp add: imu_missing_def ble_broken_def central_c1_def calm_def)
  have p: "phase (power_on probe0) = Boot \<and> tx_log (power_on probe0) = []
      \<and> \<not> advertising (power_on probe0) \<and> filter_st (power_on probe0) = probe0"
    by (simp add: power_on_def)
  have w: "rphase raw_waiting = Raw_Wait_Serial \<and> raw_tx_log raw_waiting = []
      \<and> \<not> raw_advertising raw_waiting"
    by (simp add: raw_waiting_eq)
  note a = init_failure_is_fatal
    [where s = "power_on probe0" and e = imu_missing and M = probe_filter
       and es = "[central_c1, central_c1, calm, central_c2]" and r = raw_waiting]
  note b = init_failure_is_fatal
    [where s = "power_on probe0" and e = ble_broken and M = probe_filter
       and es = "[central_c1, central_c1]" and r = raw_waiting]
  show ?thesis
    using e p w a b
    by (simp add: probe_filter_def probe0_def SAMPLE_RATE_HZ_def)
qed

section \<open>The wait for the serial console\<close>

text \<open>
  C10. The raw-passthrough sketch started without a serial console: as long as
  \<^verbatim>\<open>Serial\<close> stays false, \<^verbatim>\<open>setup\<close> does not get past its wait, the sensor is not probed,
  advertising does not start, nothing is printed and no frame is written.
\<close>

theorem raw_setup_waits_for_serial:
  assumes "\<forall>e\<in>set es. \<not> serial_up e"
  shows "rphase (raw_run es raw_power_on) \<in> {Raw_Boot, Raw_Wait_Serial}
     \<and> \<not> raw_imu_up (raw_run es raw_power_on)
     \<and> \<not> raw_advertising (raw_run es raw_power_on)
     \<and> raw_tx_log (raw_run es raw_power_on) = []
     \<and> raw_serial_out (raw_run es raw_power_on) = []"
proof -
  have b: "rphase raw_power_on \<in> {Raw_Boot, Raw_Wait_Serial}" by (simp add: raw_power_on_def)
  from raw_run_waiting [OF b assms] show ?thesis by (simp add: raw_power_on_def)
qed

text \<open>Three polls without a console, evaluated.\<close>

theorem raw_setup_waits_for_serial_witness:
  "\<not> serial_up no_console
   \<and> rphase (raw_run [no_console, no_console, no_console] raw_power_on) = Raw_Wait_Serial
   \<and> \<not> raw_imu_up (raw_run [no_console, no_console, no_console] raw_power_on)
   \<and> \<not> raw_advertising (raw_run [no_console, no_console, no_console] raw_power_on)
   \<and> raw_tx_log (raw_run [no_console, no_console, no_console] raw_power_on) = []
   \<and> raw_serial_out (raw_run [no_console, no_console, no_console] raw_power_on) = []"
proof -
  have h: "\<forall>e\<in>set [no_console, no_console, no_console]. \<not> serial_up e"
    by (simp add: no_console_def)
  have ph: "rphase (raw_run [no_console, no_console, no_console] raw_power_on) = Raw_Wait_Serial"
    by (simp add: raw_run_Cons raw_run_Nil raw_step_defs raw_power_on_def no_console_def)
  from raw_setup_waits_for_serial [OF h] ph show ?thesis
    by (simp add: no_console_def)
qed

section \<open>Rendering and reading numbers\<close>

lemma digit_char_digit: "n < 10 \<Longrightarrow> is_digit (digit_char n)"
  by (auto simp: is_digit_def digit_char_def less_Suc_eq numeral_eq_Suc)

lemma digit_val_digit_char: "n < 10 \<Longrightarrow> digit_val (digit_char n) = n"
  by (auto simp: digit_val_def digit_char_def less_Suc_eq numeral_eq_Suc)

lemma not_digit_misc:
  "\<not> is_digit (CHR ''-'')" "\<not> is_digit (CHR ''.'')" "\<not> is_digit (CHR '','')" "\<not> is_digit (CHR ''}'')"
  by (simp_all add: is_digit_def)

lemma parse_nat_Nil: "parse_nat [] = 0"
  by (simp add: parse_nat_def)

lemma parse_nat_snoc: "parse_nat (ds @ [c]) = 10 * parse_nat ds + digit_val c"
  by (simp add: parse_nat_def)

lemma dec_digits: "list_all is_digit (dec n)"
proof (induction n rule: dec.induct)
  case (1 n)
  show ?case
  proof (cases "n < 10")
    case True
    then show ?thesis by (subst dec.simps) (simp add: digit_char_digit)
  next
    case False
    with 1 have "list_all is_digit (dec (n div 10))" by simp
    with False show ?thesis by (subst dec.simps) (simp add: digit_char_digit)
  qed
qed

lemma dec_nonempty: "dec n \<noteq> []"
  by (subst dec.simps) simp

lemma parse_nat_dec: "parse_nat (dec n) = n"
proof (induction n rule: dec.induct)
  case (1 n)
  show ?case
  proof (cases "n < 10")
    case True
    then show ?thesis
      by (subst dec.simps) (simp add: parse_nat_def digit_val_digit_char)
  next
    case False
    with 1 have "parse_nat (dec (n div 10)) = n div 10" by simp
    with False show ?thesis
      by (subst dec.simps) (simp add: parse_nat_snoc digit_val_digit_char)
  qed
qed

lemma length_dec: "0 < k \<Longrightarrow> n < 10 ^ k \<Longrightarrow> length (dec n) \<le> k"
proof (induction n arbitrary: k rule: dec.induct)
  case (1 n)
  show ?case
  proof (cases "n < 10")
    case True
    with 1(2) show ?thesis by (subst dec.simps) simp
  next
    case False
    with 1(3) have "1 < k" by (cases k; cases "k - 1") auto
    then obtain j where k: "k = Suc j" and j: "0 < j" by (cases k) auto
    from 1(3) k have "n div 10 < 10 ^ j"
      by (simp add: less_mult_imp_div_less mult.commute)
    with 1(1) [OF False j] have "length (dec (n div 10)) \<le> j" by simp
    with False k show ?thesis by (subst dec.simps) simp
  qed
qed

lemma length_frac_digits: "length (frac_digits d m) = d"
  by (induction d arbitrary: m) simp_all

lemma frac_digits_digits: "list_all is_digit (frac_digits d m)"
  by (induction d arbitrary: m) (simp_all add: digit_char_digit)

lemma parse_nat_frac_digits: "parse_nat (frac_digits d m) = m mod 10 ^ d"
proof (induction d arbitrary: m)
  case 0
  then show ?case by (simp add: parse_nat_Nil)
next
  case (Suc d)
  have "parse_nat (frac_digits (Suc d) m) = 10 * ((m div 10) mod 10 ^ d) + m mod 10"
    by (simp add: parse_nat_snoc Suc digit_val_digit_char)
  also have "\<dots> = m mod 10 ^ Suc d"
    by (simp add: mod_mult2_eq)
  finally show ?case .
qed

lemma round_half_even_near: "\<bar>real_of_int (round_half_even q) - q\<bar> \<le> 1 / 2"
proof -
  have "real_of_int \<lfloor>q\<rfloor> \<le> q" and "q < real_of_int \<lfloor>q\<rfloor> + 1" by linarith+
  then show ?thesis
    by (auto simp: round_half_even_def Let_def)
qed

lemma round_half_even_nonneg: "0 \<le> q \<Longrightarrow> 0 \<le> round_half_even q"
proof -
  assume "0 \<le> q"
  then have "0 \<le> \<lfloor>q\<rfloor>" by simp
  then show ?thesis by (auto simp: round_half_even_def Let_def)
qed

lemma round_half_even_le: "q \<le> real_of_int N \<Longrightarrow> round_half_even q \<le> N"
proof -
  assume a: "q \<le> real_of_int N"
  have n: "\<bar>real_of_int (round_half_even q) - q\<bar> \<le> 1 / 2" by (rule round_half_even_near)
  from a n have "real_of_int (round_half_even q) < real_of_int N + 1" by linarith
  then have "round_half_even q < N + 1" by linarith
  then show ?thesis by simp
qed

lemma fmt_fixed_2:
  "fmt_fixed 2 v = (if v < 0 then ''-'' else []) @ dec (hundredths v div 100) @ ''.''
      @ frac_digits 2 (hundredths v mod 100)"
  by (simp add: fmt_fixed_def hundredths_def Let_def)

lemma hundredths_bound: "\<bar>v\<bar> \<le> 360 \<Longrightarrow> hundredths v \<le> 36000"
proof -
  assume "\<bar>v\<bar> \<le> 360"
  then have "\<bar>v\<bar> * 100 \<le> real_of_int 36000" by simp
  then have "round_half_even (\<bar>v\<bar> * 100) \<le> 36000" by (rule round_half_even_le)
  then show ?thesis by (simp add: hundredths_def)
qed

lemma hundredths_near: "\<bar>real (hundredths v) / 100 - \<bar>v\<bar>\<bar> \<le> 1 / 200"
proof -
  have nn: "0 \<le> round_half_even (\<bar>v\<bar> * 100)" by (rule round_half_even_nonneg) simp
  have "\<bar>real_of_int (round_half_even (\<bar>v\<bar> * 100)) - \<bar>v\<bar> * 100\<bar> \<le> 1 / 2"
    by (rule round_half_even_near)
  with nn have "\<bar>real (hundredths v) - \<bar>v\<bar> * 100\<bar> \<le> 1 / 2"
    by (simp add: hundredths_def)
  then show ?thesis by (simp add: abs_le_iff field_simps)
qed

lemma length_fmt_fixed_2: "\<bar>v\<bar> \<le> 360 \<Longrightarrow> length (fmt_fixed 2 v) \<le> 7"
proof -
  assume a: "\<bar>v\<bar> \<le> 360"
  from hundredths_bound [OF a] have "hundredths v div 100 < 10 ^ 3" by simp
  then have "length (dec (hundredths v div 100)) \<le> 3" by (intro length_dec) simp_all
  then show ?thesis by (simp add: fmt_fixed_2 length_frac_digits)
qed

lemma takeWhile_stop:
  "rest = [] \<or> \<not> is_digit (hd rest) \<Longrightarrow>
   takeWhile is_digit rest = [] \<and> dropWhile is_digit rest = rest"
  by (cases rest) auto

lemma takeWhile_digits:
  "list_all is_digit ds \<Longrightarrow> rest = [] \<or> \<not> is_digit (hd rest) \<Longrightarrow>
   takeWhile is_digit (ds @ rest) = ds \<and> dropWhile is_digit (ds @ rest) = rest"
  by (induction ds) (simp_all add: takeWhile_stop)

lemma take1_digits:
  "list_all is_digit ds \<Longrightarrow> ds \<noteq> [] \<Longrightarrow> take 1 (ds @ rest) \<noteq> ''-''"
  by (cases ds) (auto simp: not_digit_misc)

lemma unsigned_split:
  assumes r: "rest = [] \<or> \<not> is_digit (hd rest)"
  shows "take 1 (dec a @ ''.'' @ frac_digits 2 b @ rest) \<noteq> ''-''
    \<and> takeWhile is_digit (dec a @ ''.'' @ frac_digits 2 b @ rest) = dec a
    \<and> dropWhile is_digit (dec a @ ''.'' @ frac_digits 2 b @ rest) = ''.'' @ frac_digits 2 b @ rest
    \<and> takeWhile is_digit (frac_digits 2 b @ rest) = frac_digits 2 b
    \<and> dropWhile is_digit (frac_digits 2 b @ rest) = rest"
proof -
  have a: "take 1 (dec a @ ''.'' @ frac_digits 2 b @ rest) \<noteq> ''-''"
    by (rule take1_digits) (simp_all add: dec_digits dec_nonempty)
  have nd: "''.'' @ frac_digits 2 b @ rest = [] \<or> \<not> is_digit (hd (''.'' @ frac_digits 2 b @ rest))"
    by (simp add: not_digit_misc)
  note b = takeWhile_digits [OF dec_digits nd, of a]
  note c = takeWhile_digits [OF frac_digits_digits r, of 2 b]
  from a b c show ?thesis by simp
qed

lemma two_decimals_fmt: "two_decimals (fmt_fixed 2 v)"
proof -
  let ?a = "hundredths v div 100" and ?b = "hundredths v mod 100"
  let ?u = "dec ?a @ ''.'' @ frac_digits 2 ?b @ []"
  have e: "([]::string) = [] \<or> \<not> is_digit (hd [])" by simp
  note sp = unsigned_split [OF e, of ?a ?b]
  have t: "(if take 1 (fmt_fixed 2 v) = ''-'' then drop 1 (fmt_fixed 2 v) else fmt_fixed 2 v) = ?u"
    using sp by (simp add: fmt_fixed_2)
  show ?thesis
    unfolding two_decimals_def Let_def t
    using sp
    by (simp add: dec_nonempty length_frac_digits frac_digits_digits)
qed

lemma rounded2_near: "\<bar>rounded2 v - v\<bar> \<le> 1 / 200"
proof (cases "v < 0")
  case True
  then have "rounded2 v - v = - (real (hundredths v) / 100 - \<bar>v\<bar>)"
    by (simp add: rounded2_def)
  then have "\<bar>rounded2 v - v\<bar> = \<bar>real (hundredths v) / 100 - \<bar>v\<bar>\<bar>"
    by (simp only: abs_minus_cancel)
  with hundredths_near [of v] show ?thesis by simp
next
  case False
  then have "rounded2 v - v = real (hundredths v) / 100 - \<bar>v\<bar>"
    by (simp add: rounded2_def)
  with hundredths_near [of v] show ?thesis by simp
qed

lemma parse_number_fmt:
  assumes r: "rest = [] \<or> \<not> is_digit (hd rest)"
  shows "parse_number (fmt_fixed 2 v @ rest) = Some (rounded2 v, rest)"
proof -
  let ?a = "hundredths v div 100" and ?b = "hundredths v mod 100"
  let ?u = "dec ?a @ ''.'' @ frac_digits 2 ?b @ rest"
  note sp = unsigned_split [OF r, of ?a ?b]
  have neg: "(take 1 (fmt_fixed 2 v @ rest) = ''-'') = (v < 0)"
    using sp by (simp add: fmt_fixed_2)
  have s1: "(if v < 0 then drop 1 (fmt_fixed 2 v @ rest) else fmt_fixed 2 v @ rest) = ?u"
    by (simp add: fmt_fixed_2)
  have val: "real (parse_nat (dec ?a)) + real (parse_nat (frac_digits 2 ?b)) / 10 ^ length (frac_digits 2 ?b)
      = real (hundredths v) / 100"
  proof -
    have "real (hundredths v) = real (?a * 100 + ?b)" by simp
    also have "\<dots> = real ?a * 100 + real ?b" by (simp only: of_nat_add of_nat_mult of_nat_numeral)
    finally show ?thesis
      by (simp add: parse_nat_dec parse_nat_frac_digits length_frac_digits field_simps)
  qed
  have ne: "frac_digits 2 ?b \<noteq> []"
    using length_frac_digits [of 2 ?b] by auto
  show ?thesis
    unfolding parse_number_def Let_def neg s1
    using sp val ne
    by (simp add: dec_nonempty length_frac_digits rounded2_def)
qed

lemma expect_prefix: "expect lit (lit @ s) = Some s"
  by (simp add: expect_def)

lemma length_orientation_json:
  assumes "\<bar>roll\<bar> \<le> 360" and "\<bar>pitch\<bar> \<le> 360" and "\<bar>yaw\<bar> \<le> 360"
  shows "length (orientation_json roll pitch yaw) \<le> 46"
  using length_fmt_fixed_2 [OF assms(1)] length_fmt_fixed_2 [OF assms(2)]
    length_fmt_fixed_2 [OF assms(3)]
  by (simp add: orientation_json_def)

lemma SendOrientation_untruncated:
  assumes "\<bar>roll\<bar> \<le> 360" and "\<bar>pitch\<bar> \<le> 360" and "\<bar>yaw\<bar> \<le> 360"
  shows "SendOrientation roll pitch yaw = orientation_json roll pitch yaw"
  using length_orientation_json [OF assms]
  by (simp add: SendOrientation_def snprintf_def writeValue_def TX_VALUE_SIZE_def)

lemma SendOrientation_length_any: "length (SendOrientation roll pitch yaw) \<le> 127"
  by (simp add: SendOrientation_def snprintf_def writeValue_def)

lemma decode_orientation_json:
  "decode_frame (orientation_json roll pitch yaw) = Some (rounded2 roll, rounded2 pitch, rounded2 yaw)"
proof -
  let ?t3 = "''}''"
  let ?t2 = \<open>'',"yaw":'' @ fmt_fixed 2 yaw @ ?t3\<close>
  let ?t1 = \<open>'',"pitch":'' @ fmt_fixed 2 pitch @ ?t2\<close>
  have j: \<open>orientation_json roll pitch yaw = ''{"roll":'' @ fmt_fixed 2 roll @ ?t1\<close>
    by (simp add: orientation_json_def)
  have e1: \<open>expect ''{"roll":'' (''{"roll":'' @ fmt_fixed 2 roll @ ?t1) = Some (fmt_fixed 2 roll @ ?t1)\<close>
    by (rule expect_prefix)
  have p1: "parse_number (fmt_fixed 2 roll @ ?t1) = Some (rounded2 roll, ?t1)"
    by (rule parse_number_fmt) (simp add: not_digit_misc)
  have e2: \<open>expect '',"pitch":'' ?t1 = Some (fmt_fixed 2 pitch @ ?t2)\<close>
    by (rule expect_prefix)
  have p2: "parse_number (fmt_fixed 2 pitch @ ?t2) = Some (rounded2 pitch, ?t2)"
    by (rule parse_number_fmt) (simp add: not_digit_misc)
  have e3: \<open>expect '',"yaw":'' ?t2 = Some (fmt_fixed 2 yaw @ ?t3)\<close>
    by (rule expect_prefix)
  have p3: "parse_number (fmt_fixed 2 yaw @ ?t3) = Some (rounded2 yaw, ?t3)"
    by (rule parse_number_fmt) (simp add: not_digit_misc)
  show ?thesis
    unfolding decode_frame_def j
    by (simp only: e1 p1 e2 p2 e3 p3 option.case prod.case) simp
qed

lemma hundredths_eval:
  "hundredths (- 180) = 18000" "hundredths (1 / 8) = 12" "hundredths 360 = 36000"
  by (simp_all add: hundredths_def round_half_even_def)

lemma frame_example:
  \<open>orientation_json (- 180) (1 / 8) 360 = ''{"roll":-180.00,"pitch":0.12,"yaw":360.00}''\<close>
  by (simp add: orientation_json_def fmt_fixed_2 hundredths_eval dec_numeral dec_0 dec_1
      digit_char_def frac_digits_numeral)

section \<open>Frame size and precision\<close>

text \<open>
  C4. For angles in the documented ranges (\<open>(-180, 180]\<close> or \<open>[0, 360)\<close>, so of absolute
  value at most 360) the encoding is the whole JSON text, nothing is cut by the
  128-byte buffer or by the characteristic, every angle is rendered with exactly two
  decimal digits, and the frame has at most 46 bytes: below the 128 bytes of the
  buffer and the 512 bytes of the characteristic.
\<close>

theorem encoding_total_and_bounded:
  assumes "\<bar>roll\<bar> \<le> 360" and "\<bar>pitch\<bar> \<le> 360" and "\<bar>yaw\<bar> \<le> 360"
  shows "SendOrientation roll pitch yaw = orientation_json roll pitch yaw
     \<and> two_decimals (fmt_fixed 2 roll)
     \<and> two_decimals (fmt_fixed 2 pitch)
     \<and> two_decimals (fmt_fixed 2 yaw)
     \<and> length (SendOrientation roll pitch yaw) \<le> 46
     \<and> length (SendOrientation roll pitch yaw) < 128
     \<and> length (SendOrientation roll pitch yaw) \<le> TX_VALUE_SIZE"
proof -
  note u = SendOrientation_untruncated [OF assms]
  note l = length_orientation_json [OF assms]
  from u l show ?thesis
    by (simp add: two_decimals_fmt TX_VALUE_SIZE_def)
qed

text \<open>A frame with the longest angle text, a tie in the rounding and the upper bound.\<close>

theorem encoding_total_and_bounded_witness:
  \<open>\<bar>- 180 :: real\<bar> \<le> 360 \<and> \<bar>1 / 8 :: real\<bar> \<le> 360 \<and> \<bar>360 :: real\<bar> \<le> 360
   \<and> SendOrientation (- 180) (1 / 8) 360 = ''{"roll":-180.00,"pitch":0.12,"yaw":360.00}''
   \<and> two_decimals (fmt_fixed 2 (- 180))
   \<and> two_decimals (fmt_fixed 2 (1 / 8))
   \<and> two_decimals (fmt_fixed 2 360)
   \<and> length (SendOrientation (- 180) (1 / 8) 360) = 42\<close>
proof -
  have h1: "\<bar>- 180 :: real\<bar> \<le> 360" by simp
  have h2: "\<bar>1 / 8 :: real\<bar> \<le> 360" by simp
  have h3: "\<bar>360 :: real\<bar> \<le> 360" by simp
  note t = encoding_total_and_bounded [OF h1 h2 h3]
  from t have s: "SendOrientation (- 180) (1 / 8) 360 = orientation_json (- 180) (1 / 8) 360"
    by blast
  from t h1 h2 h3 show ?thesis
    by (simp add: s frame_example)
qed

section \<open>Frame round trip\<close>

text \<open>
  C8. For angles in the documented ranges, decoding the transmitted frame succeeds and
  returns roll, pitch and yaw within 0.01 degrees of the encoded values.
\<close>

theorem frame_round_trip:
  assumes "\<bar>roll\<bar> \<le> 360" and "\<bar>pitch\<bar> \<le> 360" and "\<bar>yaw\<bar> \<le> 360"
  shows "\<exists>r p y. decode_frame (SendOrientation roll pitch yaw) = Some (r, p, y)
     \<and> \<bar>r - roll\<bar> \<le> 1 / 100 \<and> \<bar>p - pitch\<bar> \<le> 1 / 100 \<and> \<bar>y - yaw\<bar> \<le> 1 / 100"
proof (intro exI conjI)
  show "decode_frame (SendOrientation roll pitch yaw)
      = Some (rounded2 roll, rounded2 pitch, rounded2 yaw)"
    by (simp only: SendOrientation_untruncated [OF assms] decode_orientation_json)
  show "\<bar>rounded2 roll - roll\<bar> \<le> 1 / 100" using rounded2_near [of roll] by simp
  show "\<bar>rounded2 pitch - pitch\<bar> \<le> 1 / 100" using rounded2_near [of pitch] by simp
  show "\<bar>rounded2 yaw - yaw\<bar> \<le> 1 / 100" using rounded2_near [of yaw] by simp
qed

text \<open>The same frame, decoded.\<close>

theorem frame_round_trip_witness:
  \<open>\<bar>- 180 :: real\<bar> \<le> 360 \<and> \<bar>1 / 8 :: real\<bar> \<le> 360 \<and> \<bar>360 :: real\<bar> \<le> 360
   \<and> SendOrientation (- 180) (1 / 8) 360 = ''{"roll":-180.00,"pitch":0.12,"yaw":360.00}''
   \<and> decode_frame ''{"roll":-180.00,"pitch":0.12,"yaw":360.00}'' = Some (- 180, 12 / 100, 360)
   \<and> \<bar>12 / 100 - 1 / 8 :: real\<bar> \<le> 1 / 100
   \<and> (\<exists>r p y. decode_frame ''{"roll":-180.00,"pitch":0.12,"yaw":360.00}'' = Some (r, p, y)
        \<and> \<bar>r - (- 180)\<bar> \<le> 1 / 100 \<and> \<bar>p - 1 / 8\<bar> \<le> 1 / 100 \<and> \<bar>y - 360\<bar> \<le> 1 / 100)\<close>
proof -
  have h1: "\<bar>- 180 :: real\<bar> \<le> 360" by simp
  have h2: "\<bar>1 / 8 :: real\<bar> \<le> 360" by simp
  have h3: "\<bar>360 :: real\<bar> \<le> 360" by simp
  have s: \<open>SendOrientation (- 180) (1 / 8) 360 = ''{"roll":-180.00,"pitch":0.12,"yaw":360.00}''\<close>
    by (simp only: SendOrientation_untruncated [OF h1 h2 h3] frame_example)
  have d: \<open>decode_frame ''{"roll":-180.00,"pitch":0.12,"yaw":360.00}'' = Some (- 180, 12 / 100, 360)\<close>
    using decode_orientation_json [of "- 180" "1 / 8" 360]
    by (simp add: frame_example rounded2_def hundredths_eval)
  have n: "\<bar>12 / 100 - 1 / 8 :: real\<bar> \<le> 1 / 100" by simp
  from frame_round_trip [OF h1 h2 h3] have
    \<open>\<exists>r p y. decode_frame ''{"roll":-180.00,"pitch":0.12,"yaw":360.00}'' = Some (r, p, y)
        \<and> \<bar>r - (- 180)\<bar> \<le> 1 / 100 \<and> \<bar>p - 1 / 8\<bar> \<le> 1 / 100 \<and> \<bar>y - 360\<bar> \<le> 1 / 100\<close>
    by (simp only: s)
  with h1 h2 h3 s d n show ?thesis by blast
qed

end
